theory Spec2Isabelle
  imports Main
begin

section \<open>Exceptions\<close>

text \<open>
  Every \<^verbatim>\<open>throw\<close> of the modelled sources raises \<^verbatim>\<open>std::invalid_argument\<close> with a
  message. A function that may throw returns \<open>error + 'a\<close>, \<open>Inl\<close> carrying the
  exception and its diagnostic.
\<close>

datatype error = Invalid_argument string

section \<open>Parameters (variables/params.cc)\<close>

text \<open>
  \<^verbatim>\<open>param_info_t\<close> derives from \<^verbatim>\<open>size_info_t\<close>, whose constructor is declared in
  \<^verbatim>\<open>variables.hh\<close> and is not among the sources modelled here. The base constructor is a
  parameter \<open>size_info_t\<close> of the model: it runs first, as in C++, and its exception (if
  any) propagates. \<^verbatim>\<open>tchecker::integer_t\<close> is read as \<open>int\<close>: the constructor only
  compares the bounds, no arithmetic is done on them. The member \<^verbatim>\<open>_initial_value\<close> is
  left uninitialised by the constructor and has no accessor, it is not modelled.
\<close>

record 'b param_info =
  size_info :: 'b
  info_min :: int
  info_max :: int

definition param_info_t ::
  "(nat \<Rightarrow> error + 'b) \<Rightarrow> nat \<Rightarrow> int \<Rightarrow> int \<Rightarrow> error + 'b param_info" where
  "param_info_t size_info_t sz min_v max_v =
     (case size_info_t sz of
        Inl e \<Rightarrow> Inl e
      | Inr b \<Rightarrow>
          if (min_v < 0) \<or> (min_v > max_v)
          then Inl (Invalid_argument ''expecting 0 <= min <= max'')
          else Inr \<lparr>size_info = b, info_min = min_v, info_max = max_v\<rparr>)"

text \<open>
  \<^verbatim>\<open>parameters_t::declare\<close> builds the \<^verbatim>\<open>param_info_t\<close> and hands it to the inherited
  \<^verbatim>\<open>array_variables_t::declare(name, info)\<close> of \<^verbatim>\<open>variables.hh\<close>, the parameter
  \<open>array_declare\<close>; \<open>vars\<close> is the declaration table it updates.
\<close>

definition parameters_t_declare ::
  "(nat \<Rightarrow> error + 'b) \<Rightarrow> (string \<Rightarrow> 'b param_info \<Rightarrow> 'v \<Rightarrow> error + (nat \<times> 'v)) \<Rightarrow>
   string \<Rightarrow> nat \<Rightarrow> int \<Rightarrow> int \<Rightarrow> 'v \<Rightarrow> error + (nat \<times> 'v)" where
  "parameters_t_declare size_info_t array_declare name sz min_v max_v vars =
     (case param_info_t size_info_t sz min_v max_v of
        Inl e \<Rightarrow> Inl e
      | Inr info \<Rightarrow> array_declare name info vars)"

section \<open>Read variables of a statement (statement/static_analysis.cc)\<close>

text \<open>
  The typed statements, one constructor per \<^verbatim>\<open>visit\<close> overload of
  \<^verbatim>\<open>typed_statement_visitor_t\<close>, with the sub-expressions each overload reads through the
  accessors of the statement. Expressions are of an arbitrary type \<open>'e\<close>: the visitor
  never looks into them, it passes them to \<^verbatim>\<open>extract_variables\<close> and
  \<^verbatim>\<open>extract_lvalue_offset_variable_ids\<close> of expression/static_analysis.hh.
\<close>

datatype 'e typed_statement =
    Nop
  | Assign 'e 'e
  | Int_to_clock_assign 'e 'e
  | Clock_to_clock_assign 'e 'e
  | Sum_to_clock_assign 'e 'e 'e
  | Param_to_clock_assign 'e 'e
  | Sequence "'e typed_statement" "'e typed_statement"
  | If_stmt 'e "'e typed_statement" "'e typed_statement"
  | While_stmt 'e "'e typed_statement"
  | Local_var 'e 'e
  | Local_array 'e 'e

text \<open>
  The three \<^verbatim>\<open>std::unordered_set\<close> references the visitor holds: clock, integer
  variable and parameter identifiers. The visitor writes through the references, the
  model passes the three sets along and returns them.
\<close>

datatype var_sets = Var_sets (clocks: "nat set") (intvars: "nat set") (params: "nat set")

definition vs_empty :: var_sets where
  "vs_empty = Var_sets {} {} {}"

definition vs_union :: "var_sets \<Rightarrow> var_sets \<Rightarrow> var_sets" where
  "vs_union a b = Var_sets (clocks a \<union> clocks b) (intvars a \<union> intvars b) (params a \<union> params b)"

definition vs_diff :: "var_sets \<Rightarrow> var_sets \<Rightarrow> var_sets" where
  "vs_diff a b = Var_sets (clocks a - clocks b) (intvars a - intvars b) (params a - params b)"

definition vs_subset :: "var_sets \<Rightarrow> var_sets \<Rightarrow> bool" where
  "vs_subset a b = (clocks a \<subseteq> clocks b \<and> intvars a \<subseteq> intvars b \<and> params a \<subseteq> params b)"

text \<open>
  \<open>visit\<close> is the visitor \<^verbatim>\<open>extract_read_variables_visitor_t\<close>: \<open>ev\<close> stands for
  \<^verbatim>\<open>tchecker::extract_variables\<close> and \<open>el\<close> for
  \<^verbatim>\<open>tchecker::extract_lvalue_offset_variable_ids\<close>, both acting on the three sets.
  Argument order of the constructors: \<open>Assign lvalue rvalue\<close>,
  \<open>Int_to_clock_assign clock value\<close>, \<open>Clock_to_clock_assign lclock rclock\<close>,
  \<open>Sum_to_clock_assign lclock rclock value\<close>, \<open>Param_to_clock_assign clock value\<close>,
  \<open>If_stmt condition then else\<close>, \<open>While_stmt condition body\<close>,
  \<open>Local_var variable initial_value\<close>, \<open>Local_array variable size\<close>.
\<close>

fun visit ::
  "('e \<Rightarrow> var_sets \<Rightarrow> var_sets) \<Rightarrow> ('e \<Rightarrow> var_sets \<Rightarrow> var_sets) \<Rightarrow>
   'e typed_statement \<Rightarrow> var_sets \<Rightarrow> var_sets" where
  "visit ev el (Assign lvalue rvalue) S = el lvalue (ev rvalue S)"
| "visit ev el (Int_to_clock_assign clock val) S = el clock (ev val S)"
| "visit ev el (Clock_to_clock_assign lclock rclock) S = el lclock (ev rclock S)"
| "visit ev el (Sum_to_clock_assign lclock rclock val) S = el lclock (ev val (ev rclock S))"
| "visit ev el (Param_to_clock_assign clock val) S = el clock (ev val S)"
| "visit ev el Nop S = S"
| "visit ev el (Sequence first second) S = visit ev el second (visit ev el first S)"
| "visit ev el (If_stmt condition then_stmt else_stmt) S =
     visit ev el else_stmt (visit ev el then_stmt (ev condition S))"
| "visit ev el (While_stmt condition body) S = visit ev el body (ev condition S)"
| "visit ev el (Local_var variable initial_value) S = ev initial_value S"
| "visit ev el (Local_array variable sz) S = ev sz S"

definition extract_read_variables ::
  "('e \<Rightarrow> var_sets \<Rightarrow> var_sets) \<Rightarrow> ('e \<Rightarrow> var_sets \<Rightarrow> var_sets) \<Rightarrow>
   'e typed_statement \<Rightarrow> var_sets \<Rightarrow> var_sets" where
  "extract_read_variables ev el stmt S = visit ev el stmt S"

text \<open>
  The identifiers a run adds: what is in the sets afterwards and was not before.
\<close>

definition added_by ::
  "('e \<Rightarrow> var_sets \<Rightarrow> var_sets) \<Rightarrow> ('e \<Rightarrow> var_sets \<Rightarrow> var_sets) \<Rightarrow>
   'e typed_statement \<Rightarrow> var_sets \<Rightarrow> var_sets" where
  "added_by ev el stmt S = vs_diff (extract_read_variables ev el stmt S) S"

text \<open>
  What is known of the two expression-level extractors is their contract: they insert
  into the sets the identifiers that occur in the expression. \<open>inserts_only f\<close> says so:
  the sets \<open>f e\<close> returns are the sets it was given together with identifiers that depend
  on \<open>e\<close> alone.
\<close>

definition inserts_only :: "('e \<Rightarrow> var_sets \<Rightarrow> var_sets) \<Rightarrow> bool" where
  "inserts_only f = (\<forall>e S. f e S = vs_union S (f e vs_empty))"

section \<open>Discrete states, transitions and step statuses\<close>

text \<open>
  Modelled from the spec: the enumeration \<^verbatim>\<open>tchecker::state_status_t\<close> of
  tchecker/basictypes.hh, of which refzg.cc and syncprod.hh name \<^verbatim>\<open>STATE_OK\<close> and
  \<^verbatim>\<open>STATE_INCOMPATIBLE_EDGE\<close>; the other values are the error kinds the
  specification lists for a step.
\<close>

datatype state_status =
    STATE_OK
  | STATE_INCOMPATIBLE_EDGE
  | STATE_GUARD_VIOLATED
  | STATE_INVARIANT_VIOLATED
  | STATE_INTVAR_VIOLATED
  | STATE_CLOCKS_EMPTY
  | STATE_STATEMENT_FAILED
  | STATE_RESET_FAILED

text \<open>
  A tuple of locations is an array indexed by process identifier holding location
  identifiers; a tuple of edges holds an edge identifier or nothing for each process.
  The discrete part of a state (\<^verbatim>\<open>tchecker::ta::state_t\<close>) is the tuple of locations and
  the valuation of the integer variables. A transition is the tuple of edges with the
  four containers the timed-automaton step fills in.
\<close>

type_synonym vloc_t = "nat list"
type_synonym vedge_t = "nat option list"

record ta_state =
  vloc :: vloc_t
  intval :: "int list"

record ('c, 'k) transition =
  vedge :: vedge_t
  src_invariant :: 'c
  guard :: 'c
  reset :: 'k
  tgt_invariant :: 'c

section \<open>Synchronized product (tchecker/syncprod/syncprod.hh)\<close>

text \<open>
  syncprod.hh declares the functions of the synchronized product and documents their
  contracts; their bodies are in syncprod.cc. An edge of a process, as far as the
  product reads it: the process, the edge identifier, source and target location.
\<close>

record edge =
  edge_pid :: nat
  edge_id :: nat
  edge_src :: nat
  edge_tgt :: nat

text \<open>The system, as far as the product reads it: which locations are committed.\<close>

record system =
  is_committed :: "nat \<Rightarrow> bool"

text \<open>
  Modelled from the spec: \<^verbatim>\<open>tchecker::syncprod::committed_processes\<close> (body in
  syncprod.cc), "the set of processes from system that are committed in vloc": the flag
  of process \<open>p\<close> tells whether location \<open>vloc[p]\<close> is committed.
\<close>

definition committed_processes :: "system \<Rightarrow> vloc_t \<Rightarrow> bool list" where
  "committed_processes sys vl = map (is_committed sys) vl"

text \<open>
  The members of \<^verbatim>\<open>outgoing_edges_iterator_t\<close>. The underlying
  \<^verbatim>\<open>vloc_edges_iterator_t\<close> (edges_iterators.hh) is the list of joint edges it has yet to
  yield, the one it points to first; each joint edge is the list of the edges that fire
  together.
\<close>

record outgoing_edges_iterator =
  iter_it :: "edge list list"
  iter_committed_processes :: "bool list"
  iter_committed :: bool

text \<open>
  Modelled from the spec: \<^verbatim>\<open>outgoing_edges_iterator_t::at_end\<close>, "checks if underlying
  iterator \<^verbatim>\<open>_it\<close> is past-the-end".
\<close>

definition at_end :: "outgoing_edges_iterator \<Rightarrow> bool" where
  "at_end i = (iter_it i = [])"

text \<open>
  Modelled from the spec: \<^verbatim>\<open>outgoing_edges_iterator_t::involves_committed_process\<close>,
  "true if r involves a committed process, false otherwise".
\<close>

definition involves_committed_process :: "bool list \<Rightarrow> edge list \<Rightarrow> bool" where
  "involves_committed_process cp r = (\<exists>e \<in> set r. edge_pid e < length cp \<and> cp ! edge_pid e)"

text \<open>
  Modelled from the spec: \<^verbatim>\<open>outgoing_edges_iterator_t::advance_while_not_enabled\<close>,
  "move iterator forward": "the iterator advances forward until it finds an enabled joint
  edge", where with a committed process only joint edges that involve a committed process
  are enabled, and without one every joint edge is.
\<close>

fun skip_not_enabled :: "bool list \<Rightarrow> edge list list \<Rightarrow> edge list list" where
  "skip_not_enabled cp [] = []"
| "skip_not_enabled cp (r # rs) =
     (if involves_committed_process cp r then r # rs else skip_not_enabled cp rs)"

definition advance_while_not_enabled :: "outgoing_edges_iterator \<Rightarrow> outgoing_edges_iterator" where
  "advance_while_not_enabled i =
     (if iter_committed i
      then i\<lparr>iter_it := skip_not_enabled (iter_committed_processes i) (iter_it i)\<rparr>
      else i)"

text \<open>
  Modelled from the spec: the constructor of \<^verbatim>\<open>outgoing_edges_iterator_t\<close> from a vloc
  edges iterator and the set of committed processes. \<^verbatim>\<open>_committed\<close> is "whether
  \<^verbatim>\<open>_committed_procs\<close> has a committed process or not"; the new iterator points to the
  first enabled joint edge.
\<close>

definition outgoing_edges_iterator_t :: "edge list list \<Rightarrow> bool list \<Rightarrow> outgoing_edges_iterator" where
  "outgoing_edges_iterator_t it cp =
     advance_while_not_enabled
       \<lparr>iter_it = it, iter_committed_processes = cp, iter_committed = (\<exists>b \<in> set cp. b)\<rparr>"

text \<open>
  Modelled from the spec: \<^verbatim>\<open>operator*\<close> ("pre: not at_end(), checked by assertion") and
  \<^verbatim>\<open>operator++\<close> ("this points to next tuple of edges (if any) that moves a committed
  process if any, or next edge if no committed process"). Past the end both have no
  result.
\<close>

definition deref :: "outgoing_edges_iterator \<Rightarrow> edge list option" where
  "deref i = (case iter_it i of [] \<Rightarrow> None | r # rs \<Rightarrow> Some r)"

definition incr :: "outgoing_edges_iterator \<Rightarrow> outgoing_edges_iterator option" where
  "incr i = (case iter_it i of [] \<Rightarrow> None
             | r # rs \<Rightarrow> Some (advance_while_not_enabled (i\<lparr>iter_it := rs\<rparr>)))"

text \<open>
  Modelled from the spec: \<^verbatim>\<open>tchecker::syncprod::outgoing_edges\<close>, the range from the
  iterator built on the joint edges at \<open>vloc\<close> to the past-the-end iterator. The
  enumeration of all joint edges at a tuple of locations (edges_iterators.hh) is the
  parameter \<open>vloc_edges\<close>.
\<close>

definition outgoing_edges ::
  "(system \<Rightarrow> vloc_t \<Rightarrow> edge list list) \<Rightarrow> system \<Rightarrow> vloc_t \<Rightarrow> outgoing_edges_iterator" where
  "outgoing_edges vloc_edges sys vl =
     outgoing_edges_iterator_t (vloc_edges sys vl) (committed_processes sys vl)"

text \<open>
  Walking a range: dereference and increment until the iterator compares equal to the
  past-the-end iterator. The fuel bounds the number of increments; \<open>yielded\<close> gives the
  walk one unit of fuel per joint edge left in the underlying iterator, which is shown
  below to suffice.
\<close>

fun walk :: "nat \<Rightarrow> outgoing_edges_iterator \<Rightarrow> edge list list option" where
  "walk 0 i = (if at_end i then Some [] else None)"
| "walk (Suc n) i =
     (if at_end i then Some []
      else case (deref i, incr i) of
             (Some r, Some i') \<Rightarrow> (case walk n i' of Some rs \<Rightarrow> Some (r # rs) | None \<Rightarrow> None)
           | _ \<Rightarrow> None)"

definition yielded :: "outgoing_edges_iterator \<Rightarrow> edge list list option" where
  "yielded i = walk (length (iter_it i)) i"

text \<open>
  Modelled from the spec: \<^verbatim>\<open>tchecker::syncprod::next\<close> on a tuple of locations and a
  tuple of edges (body in syncprod.cc). It throws \<^verbatim>\<open>std::invalid_argument\<close> "if the sizes
  of vloc and vedge do not match, or if the pid of an edge in edges is greater or equal
  to the size of vloc/vedge"; it returns \<^verbatim>\<open>STATE_OK\<close> "if the sources locations in edges
  match the locations in vloc, STATE_INCOMPATIBLE_EDGE otherwise"; then "the locations in
  vloc have been updated to target locations of edges for processes involved in edges"
  and "vedge contains the identifiers of the edges in edges". What the two tuples hold
  after \<^verbatim>\<open>STATE_INCOMPATIBLE_EDGE\<close> is not specified; the model hands them back as they
  were.
\<close>

definition syncprod_next ::
  "system \<Rightarrow> vloc_t \<Rightarrow> vedge_t \<Rightarrow> edge list \<Rightarrow> error + (state_status \<times> vloc_t \<times> vedge_t)" where
  "syncprod_next sys vl ve edges =
     (if length vl \<noteq> length ve then Inl (Invalid_argument [])
      else if \<exists>e \<in> set edges. length vl \<le> edge_pid e then Inl (Invalid_argument [])
      else if \<forall>e \<in> set edges. vl ! edge_pid e = edge_src e
      then Inr (STATE_OK,
                fold (\<lambda>e v. v[edge_pid e := edge_tgt e]) edges vl,
                fold (\<lambda>e v. v[edge_pid e := Some (edge_id e)]) edges (replicate (length ve) None))
      else Inr (STATE_INCOMPATIBLE_EDGE, vl, ve))"

text \<open>
  Modelled from the spec: \<^verbatim>\<open>tchecker::syncprod::is_valid_final\<close> on a tuple of locations
  and on a state (bodies in syncprod.cc), both documented "return true". A state of the
  synchronized product is its tuple of locations.
\<close>

definition syncprod_is_valid_final_vloc :: "system \<Rightarrow> vloc_t \<Rightarrow> bool" where
  "syncprod_is_valid_final_vloc sys vl = True"

definition syncprod_is_valid_final :: "system \<Rightarrow> vloc_t \<Rightarrow> bool" where
  "syncprod_is_valid_final sys s = syncprod_is_valid_final_vloc sys s"

section \<open>Zone graph with reference clocks (refzg/refzg.cc)\<close>

text \<open>
  A zone with reference clocks, as refzg.cc reads it: the reference clock variables it
  was built on (\<^verbatim>\<open>zone->reference_clock_variables()\<close>) and its DBM (\<^verbatim>\<open>zone->dbm()\<close>).
  Both are of arbitrary types \<open>'r\<close> and \<open>'d\<close>: refzg.cc passes them on and never looks
  into them. A state of the zone graph with reference clocks is a discrete state together
  with such a zone.
\<close>

record ('r, 'd) zone =
  reference_clock_variables :: 'r
  dbm :: 'd

record ('r, 'd) refzg_state = ta_state +
  zone :: "('r, 'd) zone"

text \<open>
  The functions of the timed-automaton layer (tchecker::ta) that \<^verbatim>\<open>refzg::next\<close> calls;
  their bodies belong to ta/ta.cc. \<open>ta_next\<close> is the discrete step: it returns a status and
  the tuple of locations, integer valuation, tuple of edges and containers as it leaves
  them. Sets of processes and of reference clocks (\<^verbatim>\<open>boost::dynamic_bitset\<close>) are lists of
  flags.
\<close>

record ('s, 'r, 'c, 'k, 'e) ta_functions =
  ta_next :: "'s \<Rightarrow> ta_state \<Rightarrow> ('c, 'k) transition \<Rightarrow> 'e \<Rightarrow> state_status \<times> ta_state \<times> ('c, 'k) transition"
  ta_delay_allowed :: "'s \<Rightarrow> 'r \<Rightarrow> vloc_t \<Rightarrow> bool list"
  ta_sync_refclocks :: "'s \<Rightarrow> 'r \<Rightarrow> vedge_t \<Rightarrow> bool list"

text \<open>
  \<^verbatim>\<open>semantics.next\<close> of \<^verbatim>\<open>tchecker::refzg::semantics_t\<close> (refzg/semantics.hh), the one
  operation on the DBM: from the DBM, the reference clocks, the processes allowed to
  delay in the source, the source invariant, the reference clocks to synchronize, the
  guard, the resets, the processes allowed to delay in the target, the target invariant
  and the spread, a status and the DBM as it leaves it.
\<close>

type_synonym ('r, 'c, 'k, 'd) semantics_next =
  "'d \<Rightarrow> 'r \<Rightarrow> bool list \<Rightarrow> 'c \<Rightarrow> bool list \<Rightarrow> 'c \<Rightarrow> 'k \<Rightarrow> bool list \<Rightarrow> 'c \<Rightarrow> int
     \<Rightarrow> state_status \<times> 'd"

text \<open>
  \<^verbatim>\<open>tchecker::refzg::next\<close>. The state \<open>s\<close> carries \<^verbatim>\<open>vloc\<close>, \<^verbatim>\<open>intval\<close> and \<^verbatim>\<open>zone\<close>,
  the transition \<open>t\<close> carries \<^verbatim>\<open>vedge\<close> and the four containers; the function returns the
  status with the state and the transition as the call leaves them.
\<close>

definition refzg_next ::
  "('s, 'r, 'c, 'k, 'e) ta_functions \<Rightarrow> 's \<Rightarrow> ('r, 'd) refzg_state \<Rightarrow> ('c, 'k) transition \<Rightarrow>
   ('r, 'c, 'k, 'd) semantics_next \<Rightarrow> int \<Rightarrow> 'e \<Rightarrow>
   state_status \<times> ('r, 'd) refzg_state \<times> ('c, 'k) transition" where
  "refzg_next ta sys s t semantics_next spread edges =
     (let r = reference_clock_variables (zone s);
          src_delay_allowed = ta_delay_allowed ta sys r (vloc s);
          (status, d, t') = ta_next ta sys (ta_state.truncate s) t edges;
          s' = s\<lparr>vloc := vloc d, intval := intval d\<rparr>
      in if status \<noteq> STATE_OK then (status, s', t')
         else
           let tgt_delay_allowed = ta_delay_allowed ta sys r (vloc s');
               sync_refclocks = ta_sync_refclocks ta sys r (vedge t');
               (status', rdbm) =
                 semantics_next (dbm (zone s')) r src_delay_allowed (src_invariant t')
                   sync_refclocks (guard t') (reset t') tgt_delay_allowed (tgt_invariant t') spread
           in (status', s'\<lparr>zone := (zone s')\<lparr>dbm := rdbm\<rparr>\<rparr>, t'))"

text \<open>
  \<^verbatim>\<open>tchecker::refzg::is_valid_final\<close>. \<open>is_empty\<close> and \<open>is_synchronizable\<close> are the two
  methods of \<^verbatim>\<open>tchecker::refzg::zone_t\<close> (refzg/zone.hh) the function calls.
\<close>

definition refzg_is_valid_final ::
  "(('r, 'd) zone \<Rightarrow> bool) \<Rightarrow> (('r, 'd) zone \<Rightarrow> bool) \<Rightarrow> 's \<Rightarrow> ('r, 'd) refzg_state \<Rightarrow> bool" where
  "refzg_is_valid_final is_empty is_synchronizable sys s =
     (\<not> is_empty (zone s) \<and> is_synchronizable (zone s))"

text \<open>
  The members of \<^verbatim>\<open>refzg_impl_t\<close>. The two pool allocators
  (\<^verbatim>\<open>state_pool_allocator_t\<close> and \<^verbatim>\<open>transition_pool_allocator_t\<close> of refzg/allocators.hh)
  are of arbitrary types \<open>'p\<close> and \<open>'q\<close>.
\<close>

record ('s, 'r, 'm, 'p, 'q) refzg_impl =
  impl_system :: 's
  impl_r :: 'r
  impl_semantics :: 'm
  impl_spread :: int
  impl_state_allocator :: 'p
  impl_transition_allocator :: 'q

text \<open>
  What the constructor of \<^verbatim>\<open>refzg_impl_t\<close> calls and refzg.cc does not define:
  \<^verbatim>\<open>system_t::processes_count\<close> and \<^verbatim>\<open>system_t::intvars_count(VK_FLATTENED)\<close>, the
  constructors of the two allocators with the arguments of the initialiser list (either
  may throw), \<^verbatim>\<open>tchecker::variable_access\<close> and
  \<^verbatim>\<open>variable_access_map_t::has_shared_variable\<close> of variables/static_analysis.hh, and
  \<^verbatim>\<open>reference_clock_variables_t::refcount\<close>.
\<close>

record ('s, 'r, 'a, 'p, 'q) refzg_impl_context =
  processes_count :: "'s \<Rightarrow> nat"
  intvars_count :: "'s \<Rightarrow> nat"
  state_pool_allocator_t :: "nat \<Rightarrow> nat \<Rightarrow> nat \<Rightarrow> nat \<Rightarrow> nat \<Rightarrow> nat \<Rightarrow> 'r \<Rightarrow> nat \<Rightarrow> error + 'p"
  transition_pool_allocator_t :: "nat \<Rightarrow> nat \<Rightarrow> nat \<Rightarrow> nat \<Rightarrow> error + 'q"
  variable_access :: "'s \<Rightarrow> 'a"
  has_shared_variable :: "'a \<Rightarrow> bool"
  refcount :: "'r \<Rightarrow> nat"

text \<open>
  The constructor of \<^verbatim>\<open>refzg_impl_t\<close>: the initialiser list, then the body with its
  check.
\<close>

definition refzg_impl_t ::
  "('s, 'r, 'a, 'p, 'q) refzg_impl_context \<Rightarrow>
   's \<Rightarrow> 'r \<Rightarrow> 'm \<Rightarrow> int \<Rightarrow> nat \<Rightarrow> nat \<Rightarrow> error + ('s, 'r, 'm, 'p, 'q) refzg_impl" where
  "refzg_impl_t ctx sys r semantics spread block_size table_size =
     (case state_pool_allocator_t ctx block_size block_size (processes_count ctx sys) block_size
             (intvars_count ctx sys) block_size r table_size of
        Inl e \<Rightarrow> Inl e
      | Inr state_allocator \<Rightarrow>
          (case transition_pool_allocator_t ctx block_size block_size (processes_count ctx sys)
                  table_size of
             Inl e \<Rightarrow> Inl e
           | Inr transition_allocator \<Rightarrow>
               (let va_map = variable_access ctx sys
                in if has_shared_variable ctx va_map \<and> (refcount ctx r > 1)
                   then Inl (Invalid_argument
                          ''Zone graph with reference clocks is not sound for systems with shared variables'')
                   else Inr \<lparr>impl_system = sys, impl_r = r, impl_semantics = semantics,
                             impl_spread = spread, impl_state_allocator = state_allocator,
                             impl_transition_allocator = transition_allocator\<rparr>)))"

text \<open>\<^verbatim>\<open>refzg_impl_t::is_valid_final\<close> calls the function above on its own system.\<close>

definition refzg_impl_t_is_valid_final ::
  "(('r, 'd) zone \<Rightarrow> bool) \<Rightarrow> (('r, 'd) zone \<Rightarrow> bool) \<Rightarrow>
   ('s, 'r, 'm, 'p, 'q) refzg_impl \<Rightarrow> ('r, 'd) refzg_state \<Rightarrow> bool" where
  "refzg_impl_t_is_valid_final is_empty is_synchronizable impl s =
     refzg_is_valid_final is_empty is_synchronizable (impl_system impl) s"

section \<open>Nodes of the subsumption graph (tck-reach/zg-covreach.cc)\<close>

text \<open>
  A state of the zone graph (\<^verbatim>\<open>tchecker::zg::state_t\<close>) extends the discrete state with a
  zone, of an arbitrary type \<open>'z\<close>. A node holds the two flags of \<^verbatim>\<open>node_flags_t\<close> and the
  state of \<^verbatim>\<open>node_zg_state_t\<close>.
\<close>

record 'z zg_state = ta_state +
  zg_zone :: 'z

record 'z node =
  node_initial :: bool
  node_final :: bool
  node_state :: "'z zg_state"

text \<open>
  \<^verbatim>\<open>node_hash_t::operator()\<close>. \<^verbatim>\<open>tchecker::ta::shared_hash_value\<close> (ta/state.hh) takes a
  \<^verbatim>\<open>tchecker::ta::state_t const &\<close>: of the node's state it receives the base-class part,
  which is what \<open>ta_state.truncate\<close> cuts out. Its result type \<^verbatim>\<open>std::size_t\<close> is left
  open as \<open>'h\<close>.
\<close>

definition node_hash :: "(ta_state \<Rightarrow> 'h) \<Rightarrow> 'z node \<Rightarrow> 'h" where
  "node_hash shared_hash_value n = shared_hash_value (ta_state.truncate (node_state n))"

section \<open>Properties\<close>

subsection \<open>Parameters\<close>

text \<open>
  C7. Out-of-range bounds (\<open>min < 0\<close> or \<open>min > max\<close>) make the construction of a
  \<^verbatim>\<open>param_info_t\<close>, and with it \<^verbatim>\<open>parameters_t::declare\<close>, fail with
  \<^verbatim>\<open>std::invalid_argument\<close>: the constructor's own diagnostic whenever the base
  constructor returned, and before the inherited \<^verbatim>\<open>declare\<close> is reached. With
  \<open>0 \<le> min \<le> max\<close> the constructor's check passes: once the base constructor has
  returned, the object exists, its accessors give back \<open>min\<close> and \<open>max\<close>, and it is
  what \<^verbatim>\<open>parameters_t::declare\<close> hands to the inherited \<^verbatim>\<open>declare\<close>.
\<close>

theorem param_info_t_bounds:
  "((min_v < 0 \<or> min_v > max_v) \<longrightarrow>
      (\<exists>msg. param_info_t size_info_t sz min_v max_v = Inl (Invalid_argument msg) \<and>
             parameters_t_declare size_info_t array_declare name sz min_v max_v vars
               = Inl (Invalid_argument msg) \<and>
             (\<forall>b. size_info_t sz = Inr b \<longrightarrow> msg = ''expecting 0 <= min <= max''))) \<and>
   ((0 \<le> min_v \<and> min_v \<le> max_v) \<longrightarrow>
      (\<forall>b. size_info_t sz = Inr b \<longrightarrow>
         (\<exists>info. param_info_t size_info_t sz min_v max_v = Inr info \<and>
            info_min info = min_v \<and> info_max info = max_v \<and> size_info info = b \<and>
            parameters_t_declare size_info_t array_declare name sz min_v max_v vars
              = array_declare name info vars)))"
proof (intro conjI impI allI)
  assume bad: "min_v < 0 \<or> min_v > max_v"
  show "\<exists>msg. param_info_t size_info_t sz min_v max_v = Inl (Invalid_argument msg) \<and>
             parameters_t_declare size_info_t array_declare name sz min_v max_v vars
               = Inl (Invalid_argument msg) \<and>
             (\<forall>b. size_info_t sz = Inr b \<longrightarrow> msg = ''expecting 0 <= min <= max'')"
  proof (cases "size_info_t sz")
    case (Inl e)
    obtain msg where "e = Invalid_argument msg" by (cases e)
    with Inl show ?thesis by (simp add: param_info_t_def parameters_t_declare_def)
  next
    case (Inr b)
    with bad show ?thesis by (auto simp: param_info_t_def parameters_t_declare_def)
  qed
next
  fix b assume "0 \<le> min_v \<and> min_v \<le> max_v" and "size_info_t sz = Inr b"
  then show "\<exists>info. param_info_t size_info_t sz min_v max_v = Inr info \<and>
            info_min info = min_v \<and> info_max info = max_v \<and> size_info info = b \<and>
            parameters_t_declare size_info_t array_declare name sz min_v max_v vars
              = array_declare name info vars"
    by (simp add: param_info_t_def parameters_t_declare_def)
qed

theorem param_info_t_bounds_witness:
  "param_info_t (\<lambda>n. if n = 0 then Inl (Invalid_argument ''expecting size > 0'') else Inr n) 1 (- 1) 3
     = Inl (Invalid_argument ''expecting 0 <= min <= max'') \<and>
   parameters_t_declare (\<lambda>n. if n = 0 then Inl (Invalid_argument ''expecting size > 0'') else Inr n)
       (\<lambda>name info vars. Inr (length vars, vars @ [(name, info)])) ''k'' 1 (- 1) 3 []
     = Inl (Invalid_argument ''expecting 0 <= min <= max'') \<and>
   param_info_t (\<lambda>n. if n = 0 then Inl (Invalid_argument ''expecting size > 0'') else Inr n) 1 0 5
     = Inr \<lparr>size_info = 1, info_min = 0, info_max = 5\<rparr> \<and>
   parameters_t_declare (\<lambda>n. if n = 0 then Inl (Invalid_argument ''expecting size > 0'') else Inr n)
       (\<lambda>name info vars. Inr (length vars, vars @ [(name, info)])) ''k'' 1 0 5 []
     = Inr (0, [(''k'', \<lparr>size_info = 1, info_min = 0, info_max = 5\<rparr>)])"
  using param_info_t_bounds [of "- 1" 3 "\<lambda>n. if n = 0 then Inl (Invalid_argument ''expecting size > 0'') else Inr n" 1
          "\<lambda>name info vars. Inr (length vars, vars @ [(name, info)])" "''k''" "[]"]
        param_info_t_bounds [of 0 5 "\<lambda>n. if n = 0 then Inl (Invalid_argument ''expecting size > 0'') else Inr n" 1
          "\<lambda>name info vars. Inr (length vars, vars @ [(name, info)])" "''k''" "[]"]
  by auto

subsection \<open>Read variables\<close>

lemma vs_union_empty [simp]: "vs_union S vs_empty = S" "vs_union vs_empty S = S"
  by (cases S; simp add: vs_union_def vs_empty_def)+

lemma vs_union_assoc: "vs_union (vs_union a b) c = vs_union a (vs_union b c)"
  by (simp add: vs_union_def Un_assoc)

lemma visit_inserts:
  assumes ev: "inserts_only ev" and el: "inserts_only el"
  shows "visit ev el stmt S = vs_union S (visit ev el stmt vs_empty)"
proof -
  have ev': "\<And>e S. ev e S = vs_union S (ev e vs_empty)" using ev unfolding inserts_only_def by blast
  have el': "\<And>e S. el e S = vs_union S (el e vs_empty)" using el unfolding inserts_only_def by blast
  show ?thesis
  proof (induction stmt arbitrary: S)
    case Nop show ?case by simp
  next
    case (Assign l r)
    show ?case using el' [of l "ev r S"] ev' [of r S] el' [of l "ev r vs_empty"]
      by (simp add: vs_union_assoc)
  next
    case (Int_to_clock_assign c v)
    show ?case using el' [of c "ev v S"] ev' [of v S] el' [of c "ev v vs_empty"]
      by (simp add: vs_union_assoc)
  next
    case (Clock_to_clock_assign l r)
    show ?case using el' [of l "ev r S"] ev' [of r S] el' [of l "ev r vs_empty"]
      by (simp add: vs_union_assoc)
  next
    case (Sum_to_clock_assign l r v)
    show ?case
      using el' [of l "ev v (ev r S)"] ev' [of v "ev r S"] ev' [of r S]
        el' [of l "ev v (ev r vs_empty)"] ev' [of v "ev r vs_empty"]
      by (simp add: vs_union_assoc)
  next
    case (Param_to_clock_assign c v)
    show ?case using el' [of c "ev v S"] ev' [of v S] el' [of c "ev v vs_empty"]
      by (simp add: vs_union_assoc)
  next
    case (Sequence s1 s2)
    show ?case
      using Sequence.IH(2) [of "visit ev el s1 S"] Sequence.IH(1) [of S]
        Sequence.IH(2) [of "visit ev el s1 vs_empty"]
      by (simp add: vs_union_assoc)
  next
    case (If_stmt c s1 s2)
    show ?case
      using If_stmt.IH(2) [of "visit ev el s1 (ev c S)"] If_stmt.IH(1) [of "ev c S"] ev' [of c S]
        If_stmt.IH(2) [of "visit ev el s1 (ev c vs_empty)"] If_stmt.IH(1) [of "ev c vs_empty"]
      by (simp add: vs_union_assoc)
  next
    case (While_stmt c b)
    show ?case
      using While_stmt.IH [of "ev c S"] ev' [of c S] While_stmt.IH [of "ev c vs_empty"]
      by (simp add: vs_union_assoc)
  next
    case (Local_var x v)
    show ?case using ev' [of v S] by simp
  next
    case (Local_array x v)
    show ?case using ev' [of v S] by simp
  qed
qed



lemma vs_subset_union: "vs_subset S (vs_union S T)"
  by (simp add: vs_subset_def vs_union_def)

lemma vs_union_idem: "vs_union (vs_union S a) (vs_union S b) = vs_union S (vs_union a b)"
  by (auto simp: vs_union_def)

lemma vs_diff_union: "vs_diff (vs_union a b) S = vs_union (vs_diff a S) (vs_diff b S)"
  by (auto simp: vs_union_def vs_diff_def)

text \<open>
  C8. \<^verbatim>\<open>extract_read_variables\<close> is a fold over the statement tree. Provided the two
  expression-level extractors only insert identifiers, for a sequence statement the sets
  after the run are the union of the sets after a run on each part, the identifiers the
  run adds are those either part adds, and for every statement the sets given are
  contained in the sets returned: nothing is removed.
\<close>

theorem extract_read_variables_sequence:
  assumes ev: "inserts_only ev" and el: "inserts_only el"
  shows "extract_read_variables ev el (Sequence s1 s2) S
           = vs_union (extract_read_variables ev el s1 S) (extract_read_variables ev el s2 S) \<and>
         added_by ev el (Sequence s1 s2) S
           = vs_union (added_by ev el s1 S) (added_by ev el s2 S) \<and>
         vs_subset S (extract_read_variables ev el stmt S)"
proof -
  note ins = visit_inserts [OF ev el]
  have seq: "visit ev el (Sequence s1 s2) S = vs_union (visit ev el s1 S) (visit ev el s2 S)"
  proof -
    have "visit ev el (Sequence s1 s2) S = vs_union (visit ev el s1 S) (visit ev el s2 vs_empty)"
      using ins [of s2 "visit ev el s1 S"] by simp
    also have "\<dots> = vs_union (vs_union S (visit ev el s1 vs_empty)) (visit ev el s2 vs_empty)"
      using ins [of s1 S] by simp
    also have "\<dots> = vs_union (vs_union S (visit ev el s1 vs_empty)) (vs_union S (visit ev el s2 vs_empty))"
      by (auto simp: vs_union_def)
    also have "\<dots> = vs_union (visit ev el s1 S) (visit ev el s2 S)"
      using ins [of s1 S] ins [of s2 S] by simp
    finally show ?thesis .
  qed
  have sub: "vs_subset S (visit ev el stmt S)"
    using ins [of stmt S] vs_subset_union [of S "visit ev el stmt vs_empty"] by simp
  show ?thesis
    using seq sub by (simp add: extract_read_variables_def added_by_def vs_diff_union)
qed

theorem extract_read_variables_sequence_witness:
  "extract_read_variables
     (\<lambda>e S. Var_sets (clocks S) (intvars S \<union> set e) (params S))
     (\<lambda>e S. Var_sets (clocks S \<union> set e) (intvars S) (params S))
     (Sequence (Assign [1] [2]) (Local_var [0] [3, 2])) (Var_sets {} {2} {5})
   = Var_sets {1} {2, 3} {5} \<and>
   added_by
     (\<lambda>e S. Var_sets (clocks S) (intvars S \<union> set e) (params S))
     (\<lambda>e S. Var_sets (clocks S \<union> set e) (intvars S) (params S))
     (Sequence (Assign [1] [2]) (Local_var [0] [3, 2])) (Var_sets {} {2} {5})
   = Var_sets {1} {3} {}"
proof -
  have ev: "inserts_only (\<lambda>e S. Var_sets (clocks S) (intvars S \<union> set e) (params S))"
    by (simp add: inserts_only_def vs_union_def vs_empty_def)
  have el: "inserts_only (\<lambda>e S. Var_sets (clocks S \<union> set e) (intvars S) (params S))"
    by (simp add: inserts_only_def vs_union_def vs_empty_def)
  show ?thesis
    using extract_read_variables_sequence [OF ev el, of "Assign [1] [2]" "Local_var [0] [3, 2]"
        "Var_sets {} {2} {5}" Nop]
    by (auto simp: extract_read_variables_def added_by_def vs_union_def vs_diff_def)
qed

subsection \<open>Outgoing edges of the synchronized product\<close>


lemma skip_not_enabled_length: "length (skip_not_enabled cp rs) \<le> length rs"
  by (induction rs) auto

lemma skip_not_enabled_filter:
  "filter (involves_committed_process cp) (skip_not_enabled cp rs)
     = filter (involves_committed_process cp) rs"
  by (induction rs) auto

lemma skip_not_enabled_head:
  "skip_not_enabled cp rs = r # rs' \<Longrightarrow> involves_committed_process cp r"
  by (induction rs) (auto split: if_splits)

text \<open>
  With a committed process, an iterator that points to an enabled joint edge (or is past
  the end) yields, within as many increments as joint edges are left, exactly the joint
  edges left that involve a committed process.
\<close>

lemma walk_committed:
  "iter_committed i \<Longrightarrow> length (iter_it i) \<le> n \<Longrightarrow>
   (\<And>r rs. iter_it i = r # rs \<Longrightarrow> involves_committed_process (iter_committed_processes i) r) \<Longrightarrow>
   walk n i = Some (filter (involves_committed_process (iter_committed_processes i)) (iter_it i))"
proof (induction n arbitrary: i)
  case 0
  then show ?case by (simp add: at_end_def)
next
  case (Suc n)
  show ?case
  proof (cases "iter_it i")
    case Nil
    then show ?thesis by (simp add: at_end_def)
  next
    case (Cons r rs)
    let ?j = "advance_while_not_enabled (i\<lparr>iter_it := rs\<rparr>)"
    have j_it: "iter_it ?j = skip_not_enabled (iter_committed_processes i) rs"
      and j_cp: "iter_committed_processes ?j = iter_committed_processes i"
      and j_c: "iter_committed ?j"
      using Suc.prems(1) by (simp_all add: advance_while_not_enabled_def)
    have len: "length (iter_it ?j) \<le> n"
      using Suc.prems(2) Cons skip_not_enabled_length [of "iter_committed_processes i" rs]
      by (simp add: j_it)
    have hd: "\<And>r' rs'. iter_it ?j = r' # rs' \<Longrightarrow>
                involves_committed_process (iter_committed_processes ?j) r'"
      using skip_not_enabled_head by (simp add: j_it j_cp)
    have "walk n ?j
            = Some (filter (involves_committed_process (iter_committed_processes i)) rs)"
      using Suc.IH [OF j_c len hd] by (simp add: j_cp j_it skip_not_enabled_filter)
    moreover have "involves_committed_process (iter_committed_processes i) r"
      using Suc.prems(3) Cons by simp
    ultimately show ?thesis
      using Cons by (simp add: at_end_def deref_def incr_def)
  qed
qed

lemma walk_not_committed:
  "\<not> iter_committed i \<Longrightarrow> length (iter_it i) \<le> n \<Longrightarrow> walk n i = Some (iter_it i)"
proof (induction n arbitrary: i)
  case 0
  then show ?case by (simp add: at_end_def)
next
  case (Suc n)
  show ?case
  proof (cases "iter_it i")
    case Nil
    then show ?thesis by (simp add: at_end_def)
  next
    case (Cons r rs)
    have "walk n (i\<lparr>iter_it := rs\<rparr>) = Some rs"
      using Suc.IH [of "i\<lparr>iter_it := rs\<rparr>"] Suc.prems Cons by simp
    then show ?thesis
      using Cons Suc.prems(1) by (simp add: at_end_def deref_def incr_def advance_while_not_enabled_def)
  qed
qed

lemma involves_committed_processes:
  "involves_committed_process (committed_processes sys vl) r
     = (\<exists>e \<in> set r. edge_pid e < length vl \<and> is_committed sys (vl ! edge_pid e))"
  by (auto simp: involves_committed_process_def committed_processes_def)

text \<open>
  C1. The committed filter of the outgoing-edges iterator. For every system, tuple of
  locations and enumeration of the joint edges: the walk over the range ends; if a
  location of \<open>vloc\<close> is committed, the joint edges yielded are those of the enumeration
  that involve a committed process, so each of them has an edge of a process whose
  location in \<open>vloc\<close> is committed; if none is committed, all joint edges of the
  enumeration are yielded, in order.
\<close>

theorem outgoing_edges_committed_filter:
  "((\<exists>l \<in> set vl. is_committed sys l) \<longrightarrow>
      (\<exists>rs. yielded (outgoing_edges vloc_edges sys vl) = Some rs \<and>
         rs = filter (involves_committed_process (committed_processes sys vl)) (vloc_edges sys vl) \<and>
         (\<forall>r \<in> set rs. \<exists>e \<in> set r. edge_pid e < length vl \<and> is_committed sys (vl ! edge_pid e)))) \<and>
   (\<not> (\<exists>l \<in> set vl. is_committed sys l) \<longrightarrow>
      yielded (outgoing_edges vloc_edges sys vl) = Some (vloc_edges sys vl))"
proof (intro conjI impI)
  let ?cp = "committed_processes sys vl"
  let ?i = "outgoing_edges vloc_edges sys vl"
  have any: "(\<exists>b \<in> set ?cp. b) = (\<exists>l \<in> set vl. is_committed sys l)"
    by (auto simp: committed_processes_def)
  {
    assume c: "\<exists>l \<in> set vl. is_committed sys l"
    have i_it: "iter_it ?i = skip_not_enabled ?cp (vloc_edges sys vl)"
      and i_cp: "iter_committed_processes ?i = ?cp" and i_c: "iter_committed ?i"
      using c any
      by (simp_all add: outgoing_edges_def outgoing_edges_iterator_t_def advance_while_not_enabled_def)
    have "yielded ?i = Some (filter (involves_committed_process ?cp) (vloc_edges sys vl))"
      unfolding yielded_def
      using walk_committed [of ?i "length (iter_it ?i)"] i_c skip_not_enabled_head [of ?cp "vloc_edges sys vl"]
      by (simp add: i_it i_cp skip_not_enabled_filter)
    then show "\<exists>rs. yielded ?i = Some rs \<and>
         rs = filter (involves_committed_process ?cp) (vloc_edges sys vl) \<and>
         (\<forall>r \<in> set rs. \<exists>e \<in> set r. edge_pid e < length vl \<and> is_committed sys (vl ! edge_pid e))"
      by (simp add: involves_committed_processes)
  }
  {
    assume nc: "\<not> (\<exists>l \<in> set vl. is_committed sys l)"
    have none: "\<not> (\<exists>b \<in> set ?cp. b)" using nc any by simp
    have i_it: "iter_it ?i = vloc_edges sys vl" and i_c: "\<not> iter_committed ?i"
      using none
      by (auto simp: outgoing_edges_def outgoing_edges_iterator_t_def advance_while_not_enabled_def)
    show "yielded ?i = Some (vloc_edges sys vl)"
      unfolding yielded_def using walk_not_committed [OF i_c, of "length (iter_it ?i)"]
      by (simp add: i_it)
  }
qed

theorem outgoing_edges_committed_filter_witness:
  "yielded (outgoing_edges
      (\<lambda>sys vl. [[\<lparr>edge_pid = 0, edge_id = 0, edge_src = 0, edge_tgt = 1\<rparr>],
                  [\<lparr>edge_pid = 1, edge_id = 1, edge_src = 2, edge_tgt = 3\<rparr>]])
      \<lparr>is_committed = (\<lambda>l. l = 2)\<rparr> [0, 2])
     = Some [[\<lparr>edge_pid = 1, edge_id = 1, edge_src = 2, edge_tgt = 3\<rparr>]] \<and>
   yielded (outgoing_edges
      (\<lambda>sys vl. [[\<lparr>edge_pid = 0, edge_id = 0, edge_src = 0, edge_tgt = 1\<rparr>],
                  [\<lparr>edge_pid = 1, edge_id = 1, edge_src = 2, edge_tgt = 3\<rparr>]])
      \<lparr>is_committed = (\<lambda>l. False)\<rparr> [0, 2])
     = Some [[\<lparr>edge_pid = 0, edge_id = 0, edge_src = 0, edge_tgt = 1\<rparr>],
             [\<lparr>edge_pid = 1, edge_id = 1, edge_src = 2, edge_tgt = 3\<rparr>]]"
  using outgoing_edges_committed_filter
      [of "[0, 2]" "\<lparr>is_committed = (\<lambda>l. l = 2)\<rparr>"
          "\<lambda>sys vl. [[\<lparr>edge_pid = 0, edge_id = 0, edge_src = 0, edge_tgt = 1\<rparr>],
                  [\<lparr>edge_pid = 1, edge_id = 1, edge_src = 2, edge_tgt = 3\<rparr>]]"]
    outgoing_edges_committed_filter
      [of "[0, 2]" "\<lparr>is_committed = (\<lambda>l. False)\<rparr>"
          "\<lambda>sys vl. [[\<lparr>edge_pid = 0, edge_id = 0, edge_src = 0, edge_tgt = 1\<rparr>],
                  [\<lparr>edge_pid = 1, edge_id = 1, edge_src = 2, edge_tgt = 3\<rparr>]]"]
  by (simp add: involves_committed_process_def committed_processes_def)

subsection \<open>Steps of the synchronized product\<close>

lemma fold_update_length:
  "length (fold (\<lambda>e v. v[edge_pid e := f e]) es v) = length v"
  by (induction es arbitrary: v) auto

lemma fold_update_other:
  "(\<forall>e \<in> set es. edge_pid e \<noteq> p) \<Longrightarrow> fold (\<lambda>e v. v[edge_pid e := f e]) es v ! p = v ! p"
  by (induction es arbitrary: v) auto

lemma fold_update_member:
  "distinct (map edge_pid es) \<Longrightarrow> e \<in> set es \<Longrightarrow> edge_pid e < length v \<Longrightarrow>
   fold (\<lambda>e v. v[edge_pid e := f e]) es v ! edge_pid e = f e"
proof (induction es arbitrary: v)
  case Nil
  then show ?case by simp
next
  case (Cons a es)
  show ?case
  proof (cases "e = a")
    case True
    have "\<forall>x \<in> set es. edge_pid x \<noteq> edge_pid a" using Cons.prems(1) by (auto simp: image_iff)
    then show ?thesis
      using True Cons.prems(3) fold_update_other [of es "edge_pid a" f "v[edge_pid a := f a]"]
      by simp
  next
    case False
    then show ?thesis using Cons by simp
  qed
qed

text \<open>
  C4. When \<open>vloc\<close> and \<open>vedge\<close> have the same size and every edge of the joint edge belongs
  to a process below that size, \<open>next\<close> returns a status and throws nothing:
  \<^verbatim>\<open>STATE_OK\<close> if the source location of every edge is the location of its process in
  \<open>vloc\<close>, \<^verbatim>\<open>STATE_INCOMPATIBLE_EDGE\<close> if not.
\<close>

theorem syncprod_next_status:
  "length vl = length ve \<Longrightarrow> (\<forall>e \<in> set edges. edge_pid e < length vl) \<Longrightarrow>
   ((\<forall>e \<in> set edges. vl ! edge_pid e = edge_src e) \<longrightarrow>
      (\<exists>vl' ve'. syncprod_next sys vl ve edges = Inr (STATE_OK, vl', ve'))) \<and>
   (\<not> (\<forall>e \<in> set edges. vl ! edge_pid e = edge_src e) \<longrightarrow>
      (\<exists>vl' ve'. syncprod_next sys vl ve edges = Inr (STATE_INCOMPATIBLE_EDGE, vl', ve')))"
  by (auto simp: syncprod_next_def)

theorem syncprod_next_status_witness:
  "syncprod_next \<lparr>is_committed = (\<lambda>l. False)\<rparr> [0, 2] [None, None]
      [\<lparr>edge_pid = 1, edge_id = 7, edge_src = 2, edge_tgt = 3\<rparr>]
     = Inr (STATE_OK, [0, 3], [None, Some 7]) \<and>
   syncprod_next \<lparr>is_committed = (\<lambda>l. False)\<rparr> [0, 2] [None, None]
      [\<lparr>edge_pid = 1, edge_id = 7, edge_src = 4, edge_tgt = 3\<rparr>]
     = Inr (STATE_INCOMPATIBLE_EDGE, [0, 2], [None, None])"
  using syncprod_next_status [of "[0, 2]" "[None, None]"
          "[\<lparr>edge_pid = 1, edge_id = 7, edge_src = 2, edge_tgt = 3\<rparr>]" "\<lparr>is_committed = (\<lambda>l. False)\<rparr>"]
        syncprod_next_status [of "[0, 2]" "[None, None]"
          "[\<lparr>edge_pid = 1, edge_id = 7, edge_src = 4, edge_tgt = 3\<rparr>]" "\<lparr>is_committed = (\<lambda>l. False)\<rparr>"]
  by (simp add: syncprod_next_def)

text \<open>
  C5. After a step with status \<^verbatim>\<open>STATE_OK\<close> along a joint edge with at most one edge per
  process, the tuple of locations has its size, every process with an edge in the joint
  edge was at the source of its edge and is at its target, and every other process is
  where it was.
\<close>

theorem syncprod_next_frame:
  "syncprod_next sys vl ve edges = Inr (STATE_OK, vl', ve') \<Longrightarrow>
   distinct (map edge_pid edges) \<Longrightarrow>
   length vl' = length vl \<and>
   (\<forall>e \<in> set edges. edge_pid e < length vl \<and> vl ! edge_pid e = edge_src e \<and>
                      vl' ! edge_pid e = edge_tgt e) \<and>
   (\<forall>p. (\<forall>e \<in> set edges. edge_pid e \<noteq> p) \<longrightarrow> vl' ! p = vl ! p)"
proof -
  assume nxt: "syncprod_next sys vl ve edges = Inr (STATE_OK, vl', ve')"
    and dist: "distinct (map edge_pid edges)"
  have rng: "\<forall>e \<in> set edges. edge_pid e < length vl"
    using nxt by (auto simp: syncprod_next_def split: if_splits)
  have src: "\<forall>e \<in> set edges. vl ! edge_pid e = edge_src e"
    using nxt by (auto simp: syncprod_next_def split: if_splits)
  have vl': "vl' = fold (\<lambda>e v. v[edge_pid e := edge_tgt e]) edges vl"
    using nxt by (auto simp: syncprod_next_def split: if_splits)
  show ?thesis
    using rng src dist
    by (auto simp: vl' fold_update_length fold_update_other fold_update_member)
qed

theorem syncprod_next_frame_witness:
  "syncprod_next \<lparr>is_committed = (\<lambda>l. False)\<rparr> [0, 2, 5] [None, None, None]
      [\<lparr>edge_pid = 0, edge_id = 4, edge_src = 0, edge_tgt = 1\<rparr>,
       \<lparr>edge_pid = 2, edge_id = 9, edge_src = 5, edge_tgt = 6\<rparr>]
     = Inr (STATE_OK, [1, 2, 6], [Some 4, None, Some 9]) \<and>
   [1, 2, 6] ! 0 = (1::nat) \<and> [1, 2, 6] ! 2 = (6::nat) \<and> [1, 2, 6] ! 1 = [0, 2, 5] ! (1::nat)"
proof -
  have n: "syncprod_next \<lparr>is_committed = (\<lambda>l. False)\<rparr> [0, 2, 5] [None, None, None]
      [\<lparr>edge_pid = 0, edge_id = 4, edge_src = 0, edge_tgt = 1\<rparr>,
       \<lparr>edge_pid = 2, edge_id = 9, edge_src = 5, edge_tgt = 6\<rparr>]
     = Inr (STATE_OK, [1, 2, 6], [Some 4, None, Some 9])"
    by (simp add: syncprod_next_def)
  have d: "distinct (map edge_pid [\<lparr>edge_pid = 0, edge_id = 4, edge_src = 0, edge_tgt = 1\<rparr>,
       \<lparr>edge_pid = 2, edge_id = 9, edge_src = 5, edge_tgt = 6\<rparr>])"
    by simp
  show ?thesis using syncprod_next_frame [OF n d] n by simp
qed

text \<open>
  C9. In the synchronized product every state, and every tuple of locations, is a valid
  final state, whatever the system.
\<close>

theorem syncprod_is_valid_final_true:
  "syncprod_is_valid_final sys s \<and> syncprod_is_valid_final_vloc sys vl"
  by (simp add: syncprod_is_valid_final_def syncprod_is_valid_final_vloc_def)

subsection \<open>Zone graph with reference clocks\<close>

text \<open>
  C2. \<^verbatim>\<open>is_valid_final\<close> of the zone graph with reference clocks, the function and the
  method of \<^verbatim>\<open>refzg_impl_t\<close>, holds of a state exactly when its zone is not empty and is
  synchronizable.
\<close>

theorem refzg_is_valid_final_iff:
  "refzg_is_valid_final is_empty is_synchronizable sys s
     = (\<not> is_empty (zone s) \<and> is_synchronizable (zone s)) \<and>
   refzg_impl_t_is_valid_final is_empty is_synchronizable impl s
     = (\<not> is_empty (zone s) \<and> is_synchronizable (zone s))"
  by (simp add: refzg_impl_t_is_valid_final_def refzg_is_valid_final_def)

text \<open>
  C3. \<^verbatim>\<open>refzg::next\<close> runs the discrete step first. If its status is not
  \<^verbatim>\<open>STATE_OK\<close>, \<open>next\<close> returns this status with the state as the discrete step left
  it, and the zone (reference clocks and DBM) is the one it was called with. If it is
  \<^verbatim>\<open>STATE_OK\<close>, the one operation on the DBM follows, on the DBM as it was, from the
  tuple of locations, tuple of edges and containers the discrete step produced.
\<close>

theorem refzg_next_discrete_first:
  assumes step: "ta_next ta sys (ta_state.truncate s) t edges = (status, d, t')"
  shows "(status \<noteq> STATE_OK \<longrightarrow>
            refzg_next ta sys s t semantics_next spread edges
              = (status, s\<lparr>vloc := vloc d, intval := intval d\<rparr>, t') \<and>
            zone (fst (snd (refzg_next ta sys s t semantics_next spread edges))) = zone s) \<and>
         (status = STATE_OK \<longrightarrow>
            (let r = reference_clock_variables (zone s);
                 res = semantics_next (dbm (zone s)) r (ta_delay_allowed ta sys r (vloc s))
                         (src_invariant t') (ta_sync_refclocks ta sys r (vedge t')) (guard t')
                         (reset t') (ta_delay_allowed ta sys r (vloc d)) (tgt_invariant t') spread
             in refzg_next ta sys s t semantics_next spread edges
                  = (fst res,
                     s\<lparr>vloc := vloc d, intval := intval d, zone := (zone s)\<lparr>dbm := snd res\<rparr>\<rparr>,
                     t')))"
  using step by (simp add: refzg_next_def Let_def split: prod.splits)

theorem refzg_next_discrete_first_witness:
  "refzg_next
     \<lparr>ta_next = (\<lambda>sys d t edges. (if intval d = [0] then STATE_INTVAR_VIOLATED else STATE_OK,
                    d\<lparr>vloc := edges\<rparr>, t)),
      ta_delay_allowed = (\<lambda>sys r vl. map (\<lambda>l. l \<noteq> 0) vl),
      ta_sync_refclocks = (\<lambda>sys r ve. map (\<lambda>e. e \<noteq> None) ve)\<rparr>
     () \<lparr>vloc = [0], intval = [0], zone = \<lparr>reference_clock_variables = (), dbm = [0::int]\<rparr>\<rparr>
     \<lparr>vedge = [None], src_invariant = (), guard = (), reset = (), tgt_invariant = ()\<rparr>
     (\<lambda>rdbm r sd si sy g rs td ti spread. (STATE_OK, map (\<lambda>x. x + spread) rdbm)) 1 [1]
   = (STATE_INTVAR_VIOLATED,
      \<lparr>vloc = [1], intval = [0], zone = \<lparr>reference_clock_variables = (), dbm = [0::int]\<rparr>\<rparr>,
      \<lparr>vedge = [None], src_invariant = (), guard = (), reset = (), tgt_invariant = ()\<rparr>) \<and>
   refzg_next
     \<lparr>ta_next = (\<lambda>sys d t edges. (if intval d = [0] then STATE_INTVAR_VIOLATED else STATE_OK,
                    d\<lparr>vloc := edges\<rparr>, t)),
      ta_delay_allowed = (\<lambda>sys r vl. map (\<lambda>l. l \<noteq> 0) vl),
      ta_sync_refclocks = (\<lambda>sys r ve. map (\<lambda>e. e \<noteq> None) ve)\<rparr>
     () \<lparr>vloc = [0], intval = [3], zone = \<lparr>reference_clock_variables = (), dbm = [0::int]\<rparr>\<rparr>
     \<lparr>vedge = [None], src_invariant = (), guard = (), reset = (), tgt_invariant = ()\<rparr>
     (\<lambda>rdbm r sd si sy g rs td ti spread. (STATE_OK, map (\<lambda>x. x + spread) rdbm)) 1 [1]
   = (STATE_OK,
      \<lparr>vloc = [1], intval = [3], zone = \<lparr>reference_clock_variables = (), dbm = [1::int]\<rparr>\<rparr>,
      \<lparr>vedge = [None], src_invariant = (), guard = (), reset = (), tgt_invariant = ()\<rparr>)"
proof -
  let ?ta = "\<lparr>ta_next = (\<lambda>sys d t edges. (if intval d = [0] then STATE_INTVAR_VIOLATED else STATE_OK,
                    d\<lparr>vloc := edges\<rparr>, t)),
      ta_delay_allowed = (\<lambda>sys (r::unit) vl. map (\<lambda>l. l \<noteq> 0) vl),
      ta_sync_refclocks = (\<lambda>sys r ve. map (\<lambda>e. e \<noteq> None) ve)\<rparr>
      :: (unit, unit, unit, unit, nat list) ta_functions"
  let ?t = "\<lparr>vedge = [None], src_invariant = (), guard = (), reset = (), tgt_invariant = ()\<rparr>"
  let ?z = "\<lparr>reference_clock_variables = (), dbm = [0::int]\<rparr>"
  have bad: "ta_next ?ta () (ta_state.truncate \<lparr>vloc = [0], intval = [0], zone = ?z\<rparr>) ?t [1]
               = (STATE_INTVAR_VIOLATED, \<lparr>vloc = [1], intval = [0]\<rparr>, ?t)"
    by (simp add: ta_state.truncate_def)
  have good: "ta_next ?ta () (ta_state.truncate \<lparr>vloc = [0], intval = [3], zone = ?z\<rparr>) ?t [1]
               = (STATE_OK, \<lparr>vloc = [1], intval = [3]\<rparr>, ?t)"
    by (simp add: ta_state.truncate_def)
  show ?thesis
    using refzg_next_discrete_first [OF bad, of "\<lambda>rdbm r sd si sy g rs td ti spread. (STATE_OK, map (\<lambda>x. x + spread) rdbm)" 1]
      refzg_next_discrete_first [OF good, of "\<lambda>rdbm r sd si sy g rs td ti spread. (STATE_OK, map (\<lambda>x. x + spread) rdbm)" 1]
    by simp
qed

subsection \<open>Hash of a node\<close>

text \<open>
  C6. Two nodes whose states have the same tuple of locations and the same integer
  valuation have the same hash, whatever their zones and flags.
\<close>

theorem node_hash_discrete_part:
  "vloc (node_state n1) = vloc (node_state n2) \<Longrightarrow>
   intval (node_state n1) = intval (node_state n2) \<Longrightarrow>
   node_hash shared_hash_value n1 = node_hash shared_hash_value n2"
  by (simp add: node_hash_def ta_state.truncate_def)

theorem node_hash_discrete_part_witness:
  "node_hash (\<lambda>d. sum_list (vloc d) + length (intval d))
     \<lparr>node_initial = True, node_final = False,
      node_state = \<lparr>vloc = [1, 2], intval = [5], zg_zone = [0::int]\<rparr>\<rparr>
   = node_hash (\<lambda>d. sum_list (vloc d) + length (intval d))
     \<lparr>node_initial = False, node_final = False,
      node_state = \<lparr>vloc = [1, 2], intval = [5], zg_zone = [7::int]\<rparr>\<rparr>"
  using node_hash_discrete_part
    [of "\<lparr>node_initial = True, node_final = False,
      node_state = \<lparr>vloc = [1, 2], intval = [5], zg_zone = [0::int]\<rparr>\<rparr>"
       "\<lparr>node_initial = False, node_final = False,
      node_state = \<lparr>vloc = [1, 2], intval = [5], zg_zone = [7::int]\<rparr>\<rparr>"
       "\<lambda>d. sum_list (vloc d) + length (intval d)"]
  by simp

subsection \<open>Construction of the zone graph with reference clocks\<close>

text \<open>
  C10. The constructor of \<^verbatim>\<open>refzg_impl_t\<close> throws \<^verbatim>\<open>std::invalid_argument\<close> whenever
  the system has a shared variable and there is more than one reference clock. Once its
  two allocators are built, it throws its own diagnostic in that case, and with at most
  one reference clock, or without shared variable, it returns the object built from its
  arguments.
\<close>

theorem refzg_impl_t_shared_variable:
  "(has_shared_variable ctx (variable_access ctx sys) \<and> refcount ctx r > 1 \<longrightarrow>
      (\<exists>msg. refzg_impl_t ctx sys r semantics spread block_size table_size
                = Inl (Invalid_argument msg))) \<and>
   (\<forall>sa ta.
      state_pool_allocator_t ctx block_size block_size (processes_count ctx sys) block_size
          (intvars_count ctx sys) block_size r table_size = Inr sa \<and>
      transition_pool_allocator_t ctx block_size block_size (processes_count ctx sys) table_size
        = Inr ta \<longrightarrow>
      (has_shared_variable ctx (variable_access ctx sys) \<and> refcount ctx r > 1 \<longrightarrow>
         refzg_impl_t ctx sys r semantics spread block_size table_size
           = Inl (Invalid_argument
                ''Zone graph with reference clocks is not sound for systems with shared variables'')) \<and>
      (refcount ctx r \<le> 1 \<or> \<not> has_shared_variable ctx (variable_access ctx sys) \<longrightarrow>
         refzg_impl_t ctx sys r semantics spread block_size table_size
           = Inr \<lparr>impl_system = sys, impl_r = r, impl_semantics = semantics, impl_spread = spread,
                  impl_state_allocator = sa, impl_transition_allocator = ta\<rparr>))"
proof (intro conjI impI allI)
  assume shared: "has_shared_variable ctx (variable_access ctx sys) \<and> refcount ctx r > 1"
  have inv: "\<And>e. \<exists>msg. e = Invalid_argument msg"
    by (rule error.exhaust) blast
  show "\<exists>msg. refzg_impl_t ctx sys r semantics spread block_size table_size
                = Inl (Invalid_argument msg)"
    using shared inv by (auto simp: refzg_impl_t_def split: sum.splits)
next
  fix sa ta
  assume built:
    "state_pool_allocator_t ctx block_size block_size (processes_count ctx sys) block_size
          (intvars_count ctx sys) block_size r table_size = Inr sa \<and>
     transition_pool_allocator_t ctx block_size block_size (processes_count ctx sys) table_size
        = Inr ta"
  {
    assume "has_shared_variable ctx (variable_access ctx sys) \<and> refcount ctx r > 1"
    with built show "refzg_impl_t ctx sys r semantics spread block_size table_size
           = Inl (Invalid_argument
                ''Zone graph with reference clocks is not sound for systems with shared variables'')"
      by (simp add: refzg_impl_t_def)
  }
  {
    assume "refcount ctx r \<le> 1 \<or> \<not> has_shared_variable ctx (variable_access ctx sys)"
    with built show "refzg_impl_t ctx sys r semantics spread block_size table_size
           = Inr \<lparr>impl_system = sys, impl_r = r, impl_semantics = semantics, impl_spread = spread,
                  impl_state_allocator = sa, impl_transition_allocator = ta\<rparr>"
      by (auto simp: refzg_impl_t_def)
  }
qed

theorem refzg_impl_t_shared_variable_witness:
  "refzg_impl_t
     \<lparr>processes_count = (\<lambda>sys. 2), intvars_count = length,
      state_pool_allocator_t = (\<lambda>a b c d e f r t. Inr (a, t)),
      transition_pool_allocator_t = (\<lambda>a b c t. Inr (c, t)),
      variable_access = (\<lambda>sys. sys), has_shared_variable = (\<lambda>va. va \<noteq> []),
      refcount = length\<rparr>
     [''x''] [0::nat, 1] () 0 100 1000
     = Inl (Invalid_argument
              ''Zone graph with reference clocks is not sound for systems with shared variables'') \<and>
   refzg_impl_t
     \<lparr>processes_count = (\<lambda>sys. 2), intvars_count = length,
      state_pool_allocator_t = (\<lambda>a b c d e f r t. Inr (a, t)),
      transition_pool_allocator_t = (\<lambda>a b c t. Inr (c, t)),
      variable_access = (\<lambda>sys. sys), has_shared_variable = (\<lambda>va. va \<noteq> []),
      refcount = length\<rparr>
     [''x''] [0::nat] () 0 100 1000
     = Inr \<lparr>impl_system = [''x''], impl_r = [0], impl_semantics = (), impl_spread = 0,
            impl_state_allocator = (100, 1000), impl_transition_allocator = (2, 1000)\<rparr> \<and>
   refzg_impl_t
     \<lparr>processes_count = (\<lambda>sys. 2), intvars_count = length,
      state_pool_allocator_t = (\<lambda>a b c d e f r t. Inr (a, t)),
      transition_pool_allocator_t = (\<lambda>a b c t. Inr (c, t)),
      variable_access = (\<lambda>sys. sys), has_shared_variable = (\<lambda>va. va \<noteq> []),
      refcount = length\<rparr>
     ([] :: string list) [0::nat, 1] () 0 100 1000
     = Inr \<lparr>impl_system = [], impl_r = [0, 1], impl_semantics = (), impl_spread = 0,
            impl_state_allocator = (100, 1000), impl_transition_allocator = (2, 1000)\<rparr>"
proof -
  let ?ctx = "\<lparr>processes_count = (\<lambda>sys. 2), intvars_count = length,
      state_pool_allocator_t = (\<lambda>a b c d e f r t. Inr (a, t)),
      transition_pool_allocator_t = (\<lambda>a b c t. Inr (c, t)),
      variable_access = (\<lambda>sys. sys), has_shared_variable = (\<lambda>va. va \<noteq> []),
      refcount = length\<rparr>
      :: (string list, nat list, string list, nat \<times> nat, nat \<times> nat) refzg_impl_context"
  show ?thesis
    using refzg_impl_t_shared_variable [of ?ctx "[''x'']" "[0, 1]" "()" 0 100 1000]
      refzg_impl_t_shared_variable [of ?ctx "[''x'']" "[0]" "()" 0 100 1000]
      refzg_impl_t_shared_variable [of ?ctx "[]" "[0, 1]" "()" 0 100 1000]
    by simp
qed

end
